theory Spec2Isabelle
  imports Main
begin

section \<open>Data model (eloarg.h)\<close>

text \<open>
  The value kinds of an option, the \<^verbatim>\<open>ArgValueType\<close> enum.
\<close>

datatype ArgValueType = ARG_NONE | ARG_INFO | ARG_OPTIONAL | ARG_REQUIRED

text \<open>
  The struct \<^verbatim>\<open>EloArgOption\<close>. The C field \<^verbatim>\<open>value\<close> is a \<^verbatim>\<open>char *\<close> that is
  \<^verbatim>\<open>NULL\<close> until a value is stored: \<open>None\<close> is \<^verbatim>\<open>NULL\<close>. Argument strings are C
  strings, modelled as character lists. \<^verbatim>\<open>count\<close> is a \<^verbatim>\<open>size_t\<close> that is incremented
  once per character of the argument vector at most; it is a natural number here.
\<close>

record EloArgOption =
  shortOption :: string
  longOption :: string
  description :: string
  valueType :: ArgValueType
  uniqueStrId :: string
  value' :: "string option"
  provided :: bool
  count :: nat
  refCount :: nat

text \<open>
  Modelled from the spec: the key/value index (\<^verbatim>\<open>hashtable.h\<close>, \<^verbatim>\<open>hashtable.c\<close>), which is
  not among the sources. The spec gives its interface: insert, lookup, existence check,
  count and a scan of all slots, with two keys allowed to hold the same value reference.
  The table is the list of its occupied slots in slot order, each a key and the address
  of an option record. Which slot a new key lands in is decided by the hash function of
  the index, so the position among the occupied slots is the parameter \<open>slotPos\<close> of
  \<open>htSet\<close>. A \<^verbatim>\<open>NULL\<close> key (\<open>None\<close>) is in no table. The capacity of the table is not
  modelled.
\<close>

type_synonym HashTable = "(string \<times> nat) list"

definition htGet :: "HashTable \<Rightarrow> string \<Rightarrow> nat option" where
  "htGet ht key = map_of ht key"

definition htHas :: "HashTable \<Rightarrow> string option \<Rightarrow> bool" where
  "htHas ht key = (case key of None \<Rightarrow> False | Some k \<Rightarrow> htGet ht k \<noteq> None)"

definition htCount :: "HashTable \<Rightarrow> nat" where
  "htCount ht = length ht"

definition htSet :: "(string \<Rightarrow> HashTable \<Rightarrow> nat) \<Rightarrow> HashTable \<Rightarrow> string \<Rightarrow> nat \<Rightarrow> HashTable" where
  "htSet slotPos ht key p =
     (if htGet ht key \<noteq> None then map (\<lambda>(k, q). if k = key then (k, p) else (k, q)) ht
      else take (slotPos key ht) ht @ [(key, p)] @ drop (slotPos key ht) ht)"

text \<open>
  The static \<^verbatim>\<open>eloarg\<close> object together with the memory its table points into:
  \<open>hashTable\<close> and \<open>regCount\<close> (the C field \<^verbatim>\<open>count\<close>, a \<^verbatim>\<open>uint32_t\<close>) are the fields of
  \<^verbatim>\<open>struct EloArg\<close>; \<open>heap\<close> maps an address to the option record stored there and
  \<open>nextPtr\<close> is the address the next \<^verbatim>\<open>malloc\<close> returns. Allocation is taken to succeed.
\<close>

record EloArg =
  hashTable :: HashTable
  regCount :: nat
  heap :: "nat \<Rightarrow> EloArgOption"
  nextPtr :: nat

text \<open>
  Every call of \<^verbatim>\<open>error\<close> prints one message and exits the process. The message is the
  error value: its kind, and the text that the format string inserts.
\<close>

datatype configError =
    NoOption
  | NoDescription string
  | ShortAlreadySet string
  | LongAlreadySet string
  | ShortTooLong
  | LongTooLong
  | DescriptionTooLong

datatype error =
    ConfigurationError configError
  | UnknownOption string
  | MissingValue string
  | UnexpectedValue string
  | MissingRequired string

section \<open>Registration (eloArgInit, eloArgAdd)\<close>

text \<open>The \<^verbatim>\<open>%u\<close> rendering of the registration counter.\<close>

fun decimal :: "nat \<Rightarrow> string" where
  "decimal n = (if n < 10 then [''0123456789'' ! n]
                else decimal (n div 10) @ [''0123456789'' ! (n mod 10)])"

declare decimal.simps [simp del]

definition blankOption :: EloArgOption where
  "blankOption = \<lparr>shortOption = [], longOption = [], description = [], valueType = ARG_NONE,
     uniqueStrId = [], value' = None, provided = False, count = 0, refCount = 0\<rparr>"

definition eloArgInit :: "nat \<Rightarrow> EloArg" where
  "eloArgInit sz = \<lparr>hashTable = [], regCount = 0, heap = (\<lambda>_. blankOption), nextPtr = 0\<rparr>"

definition newOption :: "string option \<Rightarrow> string option \<Rightarrow> string \<Rightarrow> ArgValueType \<Rightarrow> nat \<Rightarrow> EloArgOption" where
  "newOption shortOpt longOpt descr vt n =
     \<lparr>shortOption = (case shortOpt of None \<Rightarrow> [] | Some s \<Rightarrow> s),
      longOption = (case longOpt of None \<Rightarrow> [] | Some l \<Rightarrow> l),
      description = descr,
      valueType = vt,
      uniqueStrId = decimal n,
      value' = None,
      provided = False,
      count = 0,
      refCount = (case shortOpt of None \<Rightarrow> 0 | Some _ \<Rightarrow> 1) + (case longOpt of None \<Rightarrow> 0 | Some _ \<Rightarrow> 1)\<rparr>"

definition insertKey :: "(string \<Rightarrow> HashTable \<Rightarrow> nat) \<Rightarrow> string option \<Rightarrow> nat \<Rightarrow> HashTable \<Rightarrow> HashTable" where
  "insertKey slotPos key p ht = (case key of None \<Rightarrow> ht | Some k \<Rightarrow> htSet slotPos ht k p)"

definition eloArgAdd ::
  "(string \<Rightarrow> HashTable \<Rightarrow> nat) \<Rightarrow> EloArg \<Rightarrow> string option \<Rightarrow> string option \<Rightarrow> string option
     \<Rightarrow> ArgValueType \<Rightarrow> error + EloArg" where
  "eloArgAdd slotPos st shortOpt longOpt descr vt =
     (case (shortOpt, longOpt, descr) of
        (None, None, _) \<Rightarrow> Inl (ConfigurationError NoOption)
      | (Some s, None, None) \<Rightarrow> Inl (ConfigurationError (NoDescription s))
      | (_, Some l, None) \<Rightarrow> Inl (ConfigurationError (NoDescription l))
      | (_, _, Some d) \<Rightarrow>
          if htHas (hashTable st) shortOpt
            then Inl (ConfigurationError (ShortAlreadySet (case shortOpt of None \<Rightarrow> [] | Some s \<Rightarrow> s)))
          else if htHas (hashTable st) longOpt
            then Inl (ConfigurationError (LongAlreadySet (case longOpt of None \<Rightarrow> [] | Some l \<Rightarrow> l)))
          else if (case shortOpt of None \<Rightarrow> False | Some s \<Rightarrow> length s > 1)
            then Inl (ConfigurationError ShortTooLong)
          else if (case longOpt of None \<Rightarrow> False | Some l \<Rightarrow> length l > 32)
            then Inl (ConfigurationError LongTooLong)
          else if length d > 150
            then Inl (ConfigurationError DescriptionTooLong)
          else Inr (st\<lparr>hashTable := insertKey slotPos longOpt (nextPtr st)
                                      (insertKey slotPos shortOpt (nextPtr st) (hashTable st)),
                       regCount := (regCount st + 1) mod 2 ^ 32,
                       heap := (heap st)(nextPtr st := newOption shortOpt longOpt d vt (regCount st)),
                       nextPtr := nextPtr st + 1\<rparr>))"

section \<open>Parsing (eloArgParse)\<close>

text \<open>
  What one pass of the body of the argument loop does: the process exits with a message
  (\<open>Fail\<close>), the function returns at once (\<open>Return\<close>), or the loop goes on (\<open>Next\<close>), the
  flag telling whether \<^verbatim>\<open>i\<close> was advanced past the next element as well.
\<close>

datatype step = Fail error | Return EloArg | Next EloArg bool

definition startsWithDash :: "string \<Rightarrow> bool" where
  "startsWithDash s = (case s of [] \<Rightarrow> False | c # _ \<Rightarrow> c = CHR ''-'')"

definition isLong :: "string \<Rightarrow> bool" where
  "isLong a = (case a of c # d # _ \<Rightarrow> c = CHR ''-'' \<and> d = CHR ''-'' | _ \<Rightarrow> False)"

definition markProvided :: "EloArg \<Rightarrow> nat \<Rightarrow> EloArg" where
  "markProvided st p = st\<lparr>heap := (heap st)(p := (heap st p)\<lparr>provided := True, count := count (heap st p) + 1\<rparr>)\<rparr>"

definition setValue :: "EloArg \<Rightarrow> nat \<Rightarrow> string \<Rightarrow> EloArg" where
  "setValue st p v = st\<lparr>heap := (heap st)(p := (heap st p)\<lparr>value' := Some v\<rparr>)\<rparr>"

definition takesValue :: "ArgValueType \<Rightarrow> bool" where
  "takesValue vt = (vt = ARG_OPTIONAL \<or> vt = ARG_REQUIRED)"

text \<open>
  The long branch. With an \<^verbatim>\<open>=\<close> in the element, the element is cut at its first \<^verbatim>\<open>=\<close>:
  the name is what lies between the leading \<^verbatim>\<open>--\<close> and the \<^verbatim>\<open>=\<close>, the value what follows it.
  \<open>nextArg\<close> is \<^verbatim>\<open>argv[i + 1]\<close> when \<^verbatim>\<open>i + 1 < argc\<close>.
\<close>

definition longOptionStep :: "EloArg \<Rightarrow> string \<Rightarrow> string option \<Rightarrow> step" where
  "longOptionStep st a nextArg =
     (if CHR ''='' \<in> set a then
        (let cut = takeWhile (\<lambda>c. c \<noteq> CHR ''='') a;
             inlineValue = drop 1 (dropWhile (\<lambda>c. c \<noteq> CHR ''='') a)
         in case htGet (hashTable st) (drop 2 cut) of
              None \<Rightarrow> Fail (UnknownOption cut)
            | Some p \<Rightarrow>
                if takesValue (valueType (heap st p)) then
                  (if inlineValue = [] then Fail (MissingValue (''--'' @ longOption (heap st p) @ ''=''))
                   else Next (setValue (markProvided st p) p inlineValue) False)
                else Fail (UnexpectedValue (''--'' @ longOption (heap st p))))
      else
        (case htGet (hashTable st) (drop 2 a) of
           None \<Rightarrow> Fail (UnknownOption a)
         | Some p \<Rightarrow>
             if valueType (heap st p) = ARG_INFO then Return (markProvided st p)
             else if takesValue (valueType (heap st p)) then
               (case nextArg of
                  None \<Rightarrow> Fail (MissingValue (''--'' @ longOption (heap st p)))
                | Some v \<Rightarrow>
                    if \<not> startsWithDash v then Next (setValue (markProvided st p) p v) True
                    else Fail (MissingValue (''--'' @ longOption (heap st p))))
             else Next (markProvided st p) False))"

text \<open>
  The character loop of the short branch. \<open>tmpOpt\<close> is the lookup key, built once before
  the loop from the first character after the \<^verbatim>\<open>-\<close>; \<open>opt\<close> is what is left of the element
  from the current character on. After a detached value is taken the current character
  is the last one, so the loop ends there.
\<close>

fun shortOptionLoop :: "EloArg \<Rightarrow> string \<Rightarrow> string \<Rightarrow> string option \<Rightarrow> step" where
  "shortOptionLoop st tmpOpt [] nextArg = Next st False"
| "shortOptionLoop st tmpOpt (c # opt) nextArg =
     (case htGet (hashTable st) tmpOpt of
        None \<Rightarrow> Fail (UnknownOption [c])
      | Some p \<Rightarrow>
          if valueType (heap st p) = ARG_INFO then Return (markProvided st p)
          else if takesValue (valueType (heap st p)) then
            (if opt \<noteq> [] then Next (setValue (markProvided st p) p opt) False
             else case nextArg of
                    None \<Rightarrow> Fail (MissingValue [CHR ''-'', c])
                  | Some v \<Rightarrow>
                      if \<not> startsWithDash v then Next (setValue (markProvided st p) p v) True
                      else Fail (MissingValue [CHR ''-'', c]))
          else shortOptionLoop (markProvided st p) tmpOpt opt nextArg)"

definition parseStep :: "EloArg \<Rightarrow> string \<Rightarrow> string option \<Rightarrow> step" where
  "parseStep st a nextArg =
     (if a = ''--'' then Return st
      else if isLong a then longOptionStep st a nextArg
      else if startsWithDash a then shortOptionLoop st (take 1 (tl a)) (tl a) nextArg
      else Next st False)"

datatype outcome = Completed EloArg | ReturnedEarly EloArg

fun parseArgs :: "EloArg \<Rightarrow> string list \<Rightarrow> error + outcome" where
  "parseArgs st [] = Inr (Completed st)"
| "parseArgs st (a # rest) =
     (case parseStep st a (case rest of [] \<Rightarrow> None | v # _ \<Rightarrow> Some v) of
        Fail e \<Rightarrow> Inl e
      | Return st' \<Rightarrow> Inr (ReturnedEarly st')
      | Next st' skip \<Rightarrow> parseArgs st' (drop (if skip then 1 else 0) rest))"

text \<open>The scan for a required option without a value, in slot order.\<close>

fun missingRequired :: "(nat \<Rightarrow> EloArgOption) \<Rightarrow> HashTable \<Rightarrow> error option" where
  "missingRequired h [] = None"
| "missingRequired h ((k, p) # slots) =
     (if valueType (h p) = ARG_REQUIRED \<and> value' (h p) = None then
        (if longOption (h p) \<noteq> [] then Some (MissingRequired (''--'' @ longOption (h p)))
         else Some (MissingRequired (''-'' @ shortOption (h p))))
      else missingRequired h slots)"

text \<open>
  \<^verbatim>\<open>eloArgParse\<close>: \<open>argv\<close> is the whole vector, \<^verbatim>\<open>argc\<close> its length, element 0 the program
  name.
\<close>

definition eloArgParse :: "EloArg \<Rightarrow> string list \<Rightarrow> error + EloArg" where
  "eloArgParse st argv =
     (if length argv = 0 \<or> htCount (hashTable st) = 0 then Inr st
      else case parseArgs st (tl argv) of
             Inl e \<Rightarrow> Inl e
           | Inr (ReturnedEarly st') \<Rightarrow> Inr st'
           | Inr (Completed st') \<Rightarrow>
               (case missingRequired (heap st') (hashTable st') of
                  Some e \<Rightarrow> Inl e
                | None \<Rightarrow> Inr st'))"

section \<open>Queries (eloArgHas, eloArgGet, eloArgCount)\<close>

definition eloArgHas :: "EloArg \<Rightarrow> string \<Rightarrow> bool" where
  "eloArgHas st key = (case htGet (hashTable st) key of None \<Rightarrow> False | Some p \<Rightarrow> provided (heap st p))"

definition eloArgGet :: "EloArg \<Rightarrow> string \<Rightarrow> string option" where
  "eloArgGet st key =
     (case htGet (hashTable st) key of
        None \<Rightarrow> None
      | Some p \<Rightarrow> if provided (heap st p) then value' (heap st p) else None)"

definition eloArgCount :: "EloArg \<Rightarrow> string \<Rightarrow> nat" where
  "eloArgCount st key =
     (case htGet (hashTable st) key of
        None \<Rightarrow> 0
      | Some p \<Rightarrow> if provided (heap st p) then count (heap st p) else 0)"

section \<open>Notions used to state the properties\<close>

text \<open>Whether a call of \<^verbatim>\<open>eloArgParse\<close> ended with the message for a missing required option.\<close>

definition failsMissingRequired :: "error + EloArg \<Rightarrow> bool" where
  "failsMissingRequired r = (case r of Inl (MissingRequired _) \<Rightarrow> True | _ \<Rightarrow> False)"

text \<open>
  A sequence of calls of the interface, run in order from a given state. The process
  exits at the first message, so the run stops there.
\<close>

datatype call =
    Add "string option" "string option" "string option" ArgValueType
  | Parse "string list"

fun runCalls :: "(string \<Rightarrow> HashTable \<Rightarrow> nat) \<Rightarrow> EloArg \<Rightarrow> call list \<Rightarrow> error + EloArg" where
  "runCalls slotPos st [] = Inr st"
| "runCalls slotPos st (Add s l d vt # calls) =
     (case eloArgAdd slotPos st s l d vt of Inl e \<Rightarrow> Inl e | Inr st' \<Rightarrow> runCalls slotPos st' calls)"
| "runCalls slotPos st (Parse argv # calls) =
     (case eloArgParse st argv of Inl e \<Rightarrow> Inl e | Inr st' \<Rightarrow> runCalls slotPos st' calls)"

text \<open>
  The four ways of writing one option together with a value, the elements of the
  argument vector each of them stands for, and the value it carries. \<open>refersTo ht p occ\<close>
  says that the occurrence is well formed and that the key it is written with leads to
  the record at address \<open>p\<close>: a long name is not empty and has no \<^verbatim>\<open>=\<close> in it, a short
  character is not \<^verbatim>\<open>-\<close>, an attached or inline value is not empty, and a detached value
  does not start with \<^verbatim>\<open>-\<close>.
\<close>

datatype occurrence =
    LongSpace string string
  | LongEquals string string
  | ShortAttached char string
  | ShortDetached char string

fun tokens :: "occurrence \<Rightarrow> string list" where
  "tokens (LongSpace name v) = [''--'' @ name, v]"
| "tokens (LongEquals name v) = [''--'' @ name @ ''='' @ v]"
| "tokens (ShortAttached c v) = [CHR ''-'' # c # v]"
| "tokens (ShortDetached c v) = [[CHR ''-'', c], v]"

fun occValue :: "occurrence \<Rightarrow> string" where
  "occValue (LongSpace name v) = v"
| "occValue (LongEquals name v) = v"
| "occValue (ShortAttached c v) = v"
| "occValue (ShortDetached c v) = v"

fun refersTo :: "HashTable \<Rightarrow> nat \<Rightarrow> occurrence \<Rightarrow> bool" where
  "refersTo ht p (LongSpace name v) =
     (htGet ht name = Some p \<and> name \<noteq> [] \<and> CHR ''='' \<notin> set name \<and> \<not> startsWithDash v)"
| "refersTo ht p (LongEquals name v) =
     (htGet ht name = Some p \<and> CHR ''='' \<notin> set name \<and> v \<noteq> [])"
| "refersTo ht p (ShortAttached c v) =
     (htGet ht [c] = Some p \<and> c \<noteq> CHR ''-'' \<and> v \<noteq> [])"
| "refersTo ht p (ShortDetached c v) =
     (htGet ht [c] = Some p \<and> c \<noteq> CHR ''-'' \<and> \<not> startsWithDash v)"

text \<open>
  The state in which the record at \<open>p\<close> is marked as provided, has its count raised by
  the number of the occurrences, and holds the value of the last of them.
\<close>

definition afterOccurrences :: "EloArg \<Rightarrow> nat \<Rightarrow> occurrence list \<Rightarrow> EloArg" where
  "afterOccurrences st p occs =
     st\<lparr>heap := (heap st)(p := (heap st p)
           \<lparr>provided := True, count := count (heap st p) + length occs,
            value' := Some (occValue (last occs))\<rparr>)\<rparr>"

text \<open>
  Concrete registries for the examples: a placement that puts each new key behind the
  occupied slots; a registry with the single required option \<^verbatim>\<open>-p\<close>/\<^verbatim>\<open>--port\<close>; one with
  the three flags \<^verbatim>\<open>-a\<close>, \<^verbatim>\<open>-b\<close>, \<^verbatim>\<open>-c\<close>; and the six options that \<^verbatim>\<open>examples/test.c\<close>
  registers.
\<close>

definition endSlot :: "string \<Rightarrow> HashTable \<Rightarrow> nat" where
  "endSlot key ht = length ht"

definition portRegistry :: EloArg where
  "portRegistry =
     \<lparr>hashTable = [(''p'', 0), (''port'', 0)], regCount = 1,
      heap = (\<lambda>_. blankOption)(0 := newOption (Some ''p'') (Some ''port'') ''Port to listen on'' ARG_REQUIRED 0),
      nextPtr = 1\<rparr>"

definition flagsRegistry :: EloArg where
  "flagsRegistry =
     \<lparr>hashTable = [(''a'', 0), (''b'', 1), (''c'', 2)], regCount = 3,
      heap = (\<lambda>_. blankOption)
        (0 := newOption (Some ''a'') None ''Flag a'' ARG_NONE 0,
         1 := newOption (Some ''b'') None ''Flag b'' ARG_NONE 1,
         2 := newOption (Some ''c'') None ''Flag c'' ARG_NONE 2),
      nextPtr = 3\<rparr>"

definition exampleRegistry :: EloArg where
  "exampleRegistry =
     \<lparr>hashTable = [(''h'', 0), (''help'', 0), (''version'', 1), (''port'', 2), (''f'', 3), (''file'', 3),
                   (''s'', 4), (''say-hello'', 4), (''v'', 5), (''verbose'', 5)],
      regCount = 6,
      heap = (\<lambda>_. blankOption)
        (0 := newOption (Some ''h'') (Some ''help'') ''Displays help information about the available options and usage.'' ARG_INFO 0,
         1 := newOption None (Some ''version'') ''Displays the version number of the program.'' ARG_INFO 1,
         2 := newOption None (Some ''port'') ''Specifies the port number to listen on.'' ARG_REQUIRED 2,
         3 := newOption (Some ''f'') (Some ''file'') ''Path to the input file.'' ARG_OPTIONAL 3,
         4 := newOption (Some ''s'') (Some ''say-hello'') ''Say hello.'' ARG_NONE 4,
         5 := newOption (Some ''v'') (Some ''verbose'') ''Increase verbosity level.'' ARG_NONE 5),
      nextPtr = 6\<rparr>"

section \<open>The registries of the examples are built by eloArgAdd\<close>

lemmas add_defs = eloArgAdd_def eloArgInit_def htHas_def htGet_def insertKey_def htSet_def endSlot_def

lemmas parse_defs = eloArgParse_def parseStep_def longOptionStep_def isLong_def startsWithDash_def
  takesValue_def markProvided_def setValue_def htGet_def htCount_def
  eloArgHas_def eloArgGet_def eloArgCount_def newOption_def

lemma portRegistry_built:
  "eloArgAdd endSlot (eloArgInit 1) (Some ''p'') (Some ''port'') (Some ''Port to listen on'') ARG_REQUIRED
     = Inr portRegistry"
  by (simp add: add_defs portRegistry_def)

lemma flagsRegistry_built:
  "runCalls endSlot (eloArgInit 3)
     [Add (Some ''a'') None (Some ''Flag a'') ARG_NONE,
      Add (Some ''b'') None (Some ''Flag b'') ARG_NONE,
      Add (Some ''c'') None (Some ''Flag c'') ARG_NONE] = Inr flagsRegistry"
  by (simp add: add_defs flagsRegistry_def numeral_2_eq_2[symmetric])

lemma exampleRegistry_built:
  "runCalls endSlot (eloArgInit 6)
     [Add (Some ''h'') (Some ''help'') (Some ''Displays help information about the available options and usage.'') ARG_INFO,
      Add None (Some ''version'') (Some ''Displays the version number of the program.'') ARG_INFO,
      Add None (Some ''port'') (Some ''Specifies the port number to listen on.'') ARG_REQUIRED,
      Add (Some ''f'') (Some ''file'') (Some ''Path to the input file.'') ARG_OPTIONAL,
      Add (Some ''s'') (Some ''say-hello'') (Some ''Say hello.'') ARG_NONE,
      Add (Some ''v'') (Some ''verbose'') (Some ''Increase verbosity level.'') ARG_NONE] = Inr exampleRegistry"
  by (simp add: add_defs exampleRegistry_def numeral_2_eq_2[symmetric])

lemma portRegistry_port:
  "htGet (hashTable portRegistry) ''port'' = Some 0"
  "htGet (hashTable portRegistry) ''p'' = Some 0"
  "valueType (heap portRegistry 0) = ARG_REQUIRED"
  "value' (heap portRegistry 0) = None"
  "count (heap portRegistry 0) = 0"
  "longOption (heap portRegistry 0) = ''port''"
  by (simp_all add: portRegistry_def htGet_def newOption_def)

section \<open>One pass of the argument loop\<close>

lemma parseStep_terminator: "parseStep st ''--'' nx = Return st"
  by (simp add: parseStep_def)

lemma parseStep_single_dash: "parseStep st ''-'' nx = Next st False"
  by (simp add: parseStep_def isLong_def startsWithDash_def)

lemma takeWhile_name:
  "CHR ''='' \<notin> set name \<Longrightarrow> takeWhile (\<lambda>c. c \<noteq> CHR ''='') (name @ CHR ''='' # v) = name"
  by (induction name) auto

lemma dropWhile_name:
  "CHR ''='' \<notin> set name \<Longrightarrow> dropWhile (\<lambda>c. c \<noteq> CHR ''='') (name @ CHR ''='' # v) = CHR ''='' # v"
  by (induction name) auto

lemma longOptionStep_inline:
  assumes "CHR ''='' \<notin> set name"
  shows "parseStep st (CHR ''-'' # CHR ''-'' # name @ CHR ''='' # v) nx =
     (case htGet (hashTable st) name of
        None \<Rightarrow> Fail (UnknownOption (''--'' @ name))
      | Some p \<Rightarrow>
          if takesValue (valueType (heap st p)) then
            (if v = [] then Fail (MissingValue (''--'' @ longOption (heap st p) @ ''=''))
             else Next (setValue (markProvided st p) p v) False)
          else Fail (UnexpectedValue (''--'' @ longOption (heap st p))))"
  using assms takeWhile_name[OF assms, of v] dropWhile_name[OF assms, of v]
  by (simp add: parseStep_def isLong_def longOptionStep_def Let_def split: option.splits)

lemma longOptionStep_plain:
  assumes "CHR ''='' \<notin> set name" "name \<noteq> []"
  shows "parseStep st (CHR ''-'' # CHR ''-'' # name) nx =
     (case htGet (hashTable st) name of
        None \<Rightarrow> Fail (UnknownOption (''--'' @ name))
      | Some p \<Rightarrow>
          if valueType (heap st p) = ARG_INFO then Return (markProvided st p)
          else if takesValue (valueType (heap st p)) then
            (case nx of
               None \<Rightarrow> Fail (MissingValue (''--'' @ longOption (heap st p)))
             | Some v \<Rightarrow>
                 if \<not> startsWithDash v then Next (setValue (markProvided st p) p v) True
                 else Fail (MissingValue (''--'' @ longOption (heap st p))))
          else Next (markProvided st p) False)"
  using assms by (cases name) (simp_all add: parseStep_def isLong_def longOptionStep_def split: option.splits)

lemma shortOption_first:
  assumes "c \<noteq> CHR ''-''"
  shows "parseStep st (CHR ''-'' # c # cs) nx = shortOptionLoop st [c] (c # cs) nx"
  using assms by (simp add: parseStep_def isLong_def startsWithDash_def)

lemma htGet_nonempty: "htGet ht k = Some p \<Longrightarrow> htCount ht \<noteq> 0"
  by (auto simp: htGet_def htCount_def)

section \<open>A single dash and the terminator\<close>

text \<open>
  C10. An element that is a single \<^verbatim>\<open>-\<close> is skipped: the loop goes on with the next
  element in the state it had, so no option record changes and no message is printed for
  it, and the whole parse gives what it gives on the vector without that element.
\<close>

theorem single_dash_skipped:
  "parseArgs st (''-'' # rest) = parseArgs st rest
   \<and> eloArgParse st (prog # ''-'' # rest) = eloArgParse st (prog # rest)"
  by (simp add: parseStep_single_dash eloArgParse_def)

theorem single_dash_skipped_witness:
  "eloArgParse portRegistry [''prog'', ''-'', ''--port=80''] = eloArgParse portRegistry [''prog'', ''--port=80'']"
  using single_dash_skipped [of portRegistry "[''--port=80'']" "''prog''"] by simp

lemma shortOptionLoop_skip:
  "shortOptionLoop st key opt nx = Next st' True \<Longrightarrow> \<exists>v. nx = Some v \<and> \<not> startsWithDash v"
  by (induction st key opt nx rule: shortOptionLoop.induct)
     (auto split: option.splits if_splits)

lemma longOptionStep_skip:
  "longOptionStep st a nx = Next st' True \<Longrightarrow> \<exists>v. nx = Some v \<and> \<not> startsWithDash v"
  by (auto simp: longOptionStep_def Let_def split: option.splits if_splits)

lemma parseStep_skip:
  "parseStep st a nx = Next st' True \<Longrightarrow> \<exists>v. nx = Some v \<and> \<not> startsWithDash v"
  by (auto simp: parseStep_def split: if_splits dest: shortOptionLoop_skip longOptionStep_skip)

lemma startsWithDash_terminator: "startsWithDash ''--''"
  by (simp add: startsWithDash_def)

text \<open>
  The terminator is never taken as the value of the element before it, so whatever
  stands in front of it, the loop does not get past it and does not finish normally.
\<close>

lemma parseArgs_stops_at_terminator:
  "parseArgs st (pre @ ''--'' # post) = parseArgs st (pre @ [''--''])
   \<and> (\<forall>st'. parseArgs st (pre @ [''--'']) \<noteq> Inr (Completed st'))"
proof (induction "length pre" arbitrary: pre st rule: less_induct)
  case less
  show ?case
  proof (cases pre)
    case Nil
    then show ?thesis by (simp add: parseStep_terminator)
  next
    case (Cons a pre')
    let ?n = "Some (hd (pre' @ [''--'']))"
    have nx: "(case pre' @ ''--'' # post of [] \<Rightarrow> None | v # _ \<Rightarrow> Some v) = ?n"
             "(case pre' @ [''--''] of [] \<Rightarrow> None | v # _ \<Rightarrow> Some v) = ?n"
      by (cases pre'; simp)+
    show ?thesis
    proof (cases "parseStep st a ?n")
      case (Fail e)
      then show ?thesis using Cons nx by simp
    next
      case (Return st1)
      then show ?thesis using Cons nx by simp
    next
      case (Next st1 skip)
      show ?thesis
      proof (cases skip)
        case False
        have "length pre' < length pre" using Cons by simp
        from less[OF this, of st1] show ?thesis using Cons nx Next False by simp
      next
        case True
        with Next have "\<not> startsWithDash (hd (pre' @ [''--'']))"
          using parseStep_skip by fastforce
        then obtain v pre'' where p: "pre' = v # pre''"
          using startsWithDash_terminator by (cases pre') auto
        have "length pre'' < length pre" using Cons p by simp
        from less[OF this, of st1] show ?thesis using Cons nx Next True p by simp
      qed
    qed
  qed
qed

lemma shortOptionLoop_no_MissingRequired:
  "shortOptionLoop st key opt nx \<noteq> Fail (MissingRequired n)"
  by (induction st key opt nx rule: shortOptionLoop.induct)
     (auto split: option.splits)

lemma parseStep_no_MissingRequired: "parseStep st a nx \<noteq> Fail (MissingRequired n)"
  by (auto simp: parseStep_def longOptionStep_def Let_def shortOptionLoop_no_MissingRequired
           split: option.splits)

lemma parseArgs_no_MissingRequired: "parseArgs st args \<noteq> Inl (MissingRequired n)"
proof (induction st args rule: parseArgs.induct)
  case (1 st)
  then show ?case by simp
next
  case (2 st a rest)
  then show ?case
    using parseStep_no_MissingRequired
    by (auto split: step.splits)
qed

text \<open>
  C2. When the loop stands at an element equal to \<^verbatim>\<open>--\<close> it returns at once with the
  state unchanged. A parse whose first argument is \<^verbatim>\<open>--\<close> succeeds and changes nothing,
  whatever follows and whatever required options lack a value. With any elements \<open>pre\<close>
  in front, the result does not depend on what follows the \<^verbatim>\<open>--\<close>, and it is never the
  message for a missing required option: the scan for required options is not reached.
\<close>

theorem terminator_stops_parsing:
  "parseArgs st (''--'' # post) = Inr (ReturnedEarly st)
   \<and> eloArgParse st (prog # ''--'' # post) = Inr st
   \<and> eloArgParse st (prog # pre @ ''--'' # post) = eloArgParse st (prog # pre @ [''--''])
   \<and> \<not> failsMissingRequired (eloArgParse st (prog # pre @ ''--'' # post))"
proof -
  have a: "parseArgs st (''--'' # post) = Inr (ReturnedEarly st)"
    by (simp add: parseStep_terminator)
  have b: "eloArgParse st (prog # ''--'' # post) = Inr st"
    by (simp add: eloArgParse_def parseStep_terminator)
  have c: "eloArgParse st (prog # pre @ ''--'' # post) = eloArgParse st (prog # pre @ [''--''])"
    using parseArgs_stops_at_terminator[of st pre post] by (simp add: eloArgParse_def)
  have d: "\<not> failsMissingRequired (eloArgParse st (prog # pre @ ''--'' # post))"
    using parseArgs_stops_at_terminator[of st pre post] parseArgs_no_MissingRequired[of st "pre @ [''--'']"]
    by (auto simp: eloArgParse_def failsMissingRequired_def split: sum.splits outcome.splits error.splits)
  from a b c d show ?thesis by blast
qed

theorem terminator_stops_parsing_witness:
  "value' (heap portRegistry 0) = None
   \<and> eloArgParse portRegistry [''prog'', ''--'', ''--port=80'', ''--bogus''] = Inr portRegistry"
  using terminator_stops_parsing [of portRegistry "[''--port=80'', ''--bogus'']" "''prog''"]
  by (simp add: portRegistry_port)

section \<open>The scan for required options\<close>

lemma missingRequired_found:
  "(k, p) \<in> set slots \<Longrightarrow> valueType (h p) = ARG_REQUIRED \<Longrightarrow> value' (h p) = None
     \<Longrightarrow> \<exists>n. missingRequired h slots = Some (MissingRequired n)"
  by (induction h slots rule: missingRequired.induct) auto

lemma missingRequired_none:
  "\<forall>(k, q) \<in> set slots. valueType (h q) \<noteq> ARG_REQUIRED \<or> value' (h q) \<noteq> None
     \<Longrightarrow> missingRequired h slots = None"
  by (induction h slots rule: missingRequired.induct) auto

text \<open>
  C3, as the code has it. With an argument count of zero \<^verbatim>\<open>eloArgParse\<close> returns before
  the loop and before the scan, without a message and without a change. With the program
  name alone (an argument count of one) and a required option without a value in the
  table, it ends with the message for a missing required option.
\<close>

theorem missing_required_needs_program_name:
  assumes "(k, p) \<in> set (hashTable st)"
    and "valueType (heap st p) = ARG_REQUIRED"
    and "value' (heap st p) = None"
  shows "eloArgParse st [] = Inr st \<and> failsMissingRequired (eloArgParse st [prog])"
proof -
  from assms obtain n where "missingRequired (heap st) (hashTable st) = Some (MissingRequired n)"
    using missingRequired_found by blast
  moreover have "hashTable st \<noteq> []" using assms(1) by auto
  ultimately show ?thesis
    by (simp add: eloArgParse_def htCount_def failsMissingRequired_def)
qed

theorem missing_required_needs_program_name_witness:
  "eloArgParse portRegistry [] = Inr portRegistry
   \<and> failsMissingRequired (eloArgParse portRegistry [''prog''])"
  using missing_required_needs_program_name [of "''port''" 0 portRegistry "''prog''"]
  by (simp add: portRegistry_port) (simp add: portRegistry_def)

text \<open>
  C3, as it is stated, fails on the empty vector. Against the registry whose required
  option \<^verbatim>\<open>--port\<close> has no value, the empty vector gives no message: the registry is
  returned as it was.
\<close>

theorem empty_vector_no_missing_required:
  "htGet (hashTable portRegistry) ''port'' = Some 0
   \<and> valueType (heap portRegistry 0) = ARG_REQUIRED
   \<and> value' (heap portRegistry 0) = None
   \<and> eloArgParse portRegistry [] = Inr portRegistry
   \<and> \<not> failsMissingRequired (eloArgParse portRegistry [])"
  by (simp add: portRegistry_port eloArgParse_def failsMissingRequired_def)

section \<open>Combined short options\<close>

text \<open>
  C1. The lookup key of the character loop is built once, from the first character
  after the \<^verbatim>\<open>-\<close>, and is not renewed when the loop moves on. Against the three flags
  \<^verbatim>\<open>-a\<close>, \<^verbatim>\<open>-b\<close>, \<^verbatim>\<open>-c\<close> the element \<^verbatim>\<open>-abc\<close> therefore counts \<^verbatim>\<open>a\<close> three times and
  leaves \<^verbatim>\<open>b\<close> and \<^verbatim>\<open>c\<close> not provided, and \<^verbatim>\<open>-ax\<close> with the unregistered \<^verbatim>\<open>x\<close> succeeds,
  counting \<^verbatim>\<open>a\<close> twice.
\<close>

theorem combined_flags_use_first_key:
  "htGet (hashTable flagsRegistry) ''x'' = None
   \<and> (\<exists>st. eloArgParse flagsRegistry [''prog'', ''-abc''] = Inr st
          \<and> eloArgCount st ''a'' = 3 \<and> \<not> eloArgHas st ''b'' \<and> \<not> eloArgHas st ''c'')
   \<and> (\<exists>st. eloArgParse flagsRegistry [''prog'', ''-ax''] = Inr st \<and> eloArgCount st ''a'' = 2)"
  by (simp add: parse_defs flagsRegistry_def)

section \<open>Long options with an inline value\<close>

text \<open>
  C7. For an element \<^verbatim>\<open>--name=value\<close> whose name (without \<^verbatim>\<open>=\<close>) leads to the record at
  \<open>p\<close>: if the kind is OPTIONAL or REQUIRED, an empty value ends the parse with the
  message for a missing value, and a value that is not empty is stored, the record is
  marked as provided and its count raised by one, and the loop goes on with the rest; if
  the kind is NONE or INFO, the parse ends with the message that the option allows no
  argument.
\<close>

theorem inline_value_forms:
  assumes "CHR ''='' \<notin> set name" and "htGet (hashTable st) name = Some p"
  shows "(valueType (heap st p) = ARG_OPTIONAL \<or> valueType (heap st p) = ARG_REQUIRED \<longrightarrow>
            parseArgs st ((''--'' @ name @ ''='') # rest)
              = Inl (MissingValue (''--'' @ longOption (heap st p) @ ''=''))
          \<and> eloArgParse st (prog # (''--'' @ name @ ''='') # rest)
              = Inl (MissingValue (''--'' @ longOption (heap st p) @ ''=''))
          \<and> (v \<noteq> [] \<longrightarrow>
               parseArgs st ((''--'' @ name @ ''='' @ v) # rest)
                 = parseArgs (st\<lparr>heap := (heap st)(p := (heap st p)
                        \<lparr>provided := True, count := count (heap st p) + 1, value' := Some v\<rparr>)\<rparr>) rest))
       \<and> (valueType (heap st p) = ARG_NONE \<or> valueType (heap st p) = ARG_INFO \<longrightarrow>
            parseArgs st ((''--'' @ name @ ''='' @ v) # rest)
              = Inl (UnexpectedValue (''--'' @ longOption (heap st p)))
          \<and> eloArgParse st (prog # (''--'' @ name @ ''='' @ v) # rest)
              = Inl (UnexpectedValue (''--'' @ longOption (heap st p))))"
  using assms longOptionStep_inline[OF assms(1), of st v] longOptionStep_inline[OF assms(1), of st "[]"]
    htGet_nonempty[OF assms(2)]
  by (auto simp: eloArgParse_def takesValue_def markProvided_def setValue_def)

theorem inline_value_forms_witness:
  "eloArgParse exampleRegistry [''prog'', ''--file='', ''x''] = Inl (MissingValue ''--file='')
   \<and> parseArgs exampleRegistry [''--file=a=b'', ''--bogus'']
       = parseArgs (exampleRegistry\<lparr>heap := (heap exampleRegistry)(3 := (heap exampleRegistry 3)
            \<lparr>provided := True, count := 1, value' := Some ''a=b''\<rparr>)\<rparr>) [''--bogus'']
   \<and> eloArgParse exampleRegistry [''prog'', ''--verbose=2''] = Inl (UnexpectedValue ''--verbose'')
   \<and> eloArgParse exampleRegistry [''prog'', ''--help=x''] = Inl (UnexpectedValue ''--help'')"
  using inline_value_forms [where st = exampleRegistry and name = "''file''" and p = 3 and prog = "''prog''"
      and rest = "[''x'']" and v = "''a=b''"]
    inline_value_forms [where st = exampleRegistry and name = "''file''" and p = 3 and prog = "''prog''"
      and rest = "[''--bogus'']" and v = "''a=b''"]
    inline_value_forms [where st = exampleRegistry and name = "''verbose''" and p = 5 and prog = "''prog''"
      and rest = "[]" and v = "''2''"]
    inline_value_forms [where st = exampleRegistry and name = "''help''" and p = 0 and prog = "''prog''"
      and rest = "[]" and v = "''x''"]
  by (simp add: exampleRegistry_def htGet_def newOption_def)

section \<open>Informational options\<close>

text \<open>
  What the code does whenever a lookup leads to a record of kind INFO, by the key of a
  long element without \<^verbatim>\<open>=\<close> or by the key of a short element: the record is marked as
  provided, its count is raised by one, and the parse returns at once with success; the
  result does not depend on the elements that follow, and the scan for required options
  is not made. In a short element every pass of the character loop looks up the key
  built from the first character, so this is the first character's record.
\<close>

lemma info_option_returns:
  assumes "htGet (hashTable st) name = Some p" and "valueType (heap st p) = ARG_INFO"
  shows "(name \<noteq> [] \<and> CHR ''='' \<notin> set name \<longrightarrow>
            parseArgs st ((''--'' @ name) # rest)
              = Inr (ReturnedEarly (st\<lparr>heap := (heap st)(p := (heap st p)
                        \<lparr>provided := True, count := count (heap st p) + 1\<rparr>)\<rparr>))
          \<and> eloArgParse st (prog # (''--'' @ name) # rest)
              = Inr (st\<lparr>heap := (heap st)(p := (heap st p)
                        \<lparr>provided := True, count := count (heap st p) + 1\<rparr>)\<rparr>))
       \<and> (name = [c] \<and> c \<noteq> CHR ''-'' \<longrightarrow>
            parseArgs st ((CHR ''-'' # c # cs) # rest)
              = Inr (ReturnedEarly (st\<lparr>heap := (heap st)(p := (heap st p)
                        \<lparr>provided := True, count := count (heap st p) + 1\<rparr>)\<rparr>))
          \<and> eloArgParse st (prog # (CHR ''-'' # c # cs) # rest)
              = Inr (st\<lparr>heap := (heap st)(p := (heap st p)
                        \<lparr>provided := True, count := count (heap st p) + 1\<rparr>)\<rparr>))"
proof -
  have long: "name \<noteq> [] \<Longrightarrow> CHR ''='' \<notin> set name \<Longrightarrow>
      parseStep st (''--'' @ name) nx = Return (markProvided st p)" for nx
    using assms by (simp add: longOptionStep_plain)
  have short: "name = [c] \<Longrightarrow> c \<noteq> CHR ''-'' \<Longrightarrow>
      parseStep st (CHR ''-'' # c # cs) nx = Return (markProvided st p)" for nx
    using assms by (simp add: shortOption_first)
  show ?thesis
    using long short htGet_nonempty[OF assms(1)]
    by (simp add: eloArgParse_def markProvided_def)
qed

lemma info_option_returns_example:
  "valueType (heap exampleRegistry 2) = ARG_REQUIRED \<and> value' (heap exampleRegistry 2) = None
   \<and> eloArgParse exampleRegistry [''prog'', ''--help'', ''--bogus'']
       = Inr (exampleRegistry\<lparr>heap := (heap exampleRegistry)(0 := (heap exampleRegistry 0)
            \<lparr>provided := True, count := 1\<rparr>)\<rparr>)
   \<and> eloArgParse exampleRegistry [''prog'', ''-hx'', ''--bogus'']
       = Inr (exampleRegistry\<lparr>heap := (heap exampleRegistry)(0 := (heap exampleRegistry 0)
            \<lparr>provided := True, count := 1\<rparr>)\<rparr>)"
  using info_option_returns [where st = exampleRegistry and name = "''help''" and p = 0 and prog = "''prog''"
      and rest = "[''--bogus'']"]
    info_option_returns [where st = exampleRegistry and name = "''h''" and p = 0 and prog = "''prog''"
      and rest = "[''--bogus'']" and c = "CHR ''h''" and cs = "''x''"]
  by (simp add: exampleRegistry_def htGet_def newOption_def)

text \<open>
  C4. An INFO option written as a later character of a short element is not resolved:
  the character loop keeps the lookup key of the first character. With the options of
  \<^verbatim>\<open>examples/test.c\<close>, where \<^verbatim>\<open>-h\<close> is INFO, \<^verbatim>\<open>-v\<close> a flag and \<^verbatim>\<open>--port\<close> required, the
  element \<^verbatim>\<open>-vh\<close> does not stop the parse: the scan for required options is made and ends
  with the message for \<^verbatim>\<open>--port\<close>; behind \<^verbatim>\<open>--port=1\<close> the element that follows \<^verbatim>\<open>-vh\<close> is
  still processed, and without it the parse succeeds with \<^verbatim>\<open>-h\<close> not provided and \<^verbatim>\<open>-v\<close>
  counted twice.
\<close>

theorem info_character_behind_flag_not_resolved:
  "htGet (hashTable exampleRegistry) ''h'' = Some 0
   \<and> valueType (heap exampleRegistry 0) = ARG_INFO
   \<and> eloArgParse exampleRegistry [''prog'', ''-vh''] = Inl (MissingRequired ''--port'')
   \<and> eloArgParse exampleRegistry [''prog'', ''--port=1'', ''-vh'', ''--bogus''] = Inl (UnknownOption ''--bogus'')
   \<and> (\<exists>st. eloArgParse exampleRegistry [''prog'', ''--port=1'', ''-vh''] = Inr st
          \<and> \<not> eloArgHas st ''h'' \<and> \<not> eloArgHas st ''help'' \<and> eloArgCount st ''v'' = 2)"
  by (simp add: parse_defs exampleRegistry_def)

section \<open>The three spellings of a port\<close>

text \<open>
  C5. In a registry where \<^verbatim>\<open>port\<close> and \<^verbatim>\<open>p\<close> lead to one record of kind REQUIRED, and
  no other required option lacks a value, the vectors \<^verbatim>\<open>--port 8080\<close>, \<^verbatim>\<open>--port=8080\<close> and
  \<^verbatim>\<open>-p8080\<close> all succeed with the same state. In it the value of \<^verbatim>\<open>port\<close> is \<^verbatim>\<open>8080\<close>, the
  option is provided, and its count is one more than before: 1 in a fresh registry.
\<close>

theorem port_forms_agree:
  assumes "htGet (hashTable st) ''port'' = Some p"
    and "htGet (hashTable st) ''p'' = Some p"
    and "valueType (heap st p) = ARG_REQUIRED"
    and "\<forall>(k, q) \<in> set (hashTable st). q = p \<or> valueType (heap st q) \<noteq> ARG_REQUIRED \<or> value' (heap st q) \<noteq> None"
  shows "\<exists>st'. eloArgParse st [prog, ''--port'', ''8080''] = Inr st'
             \<and> eloArgParse st [prog, ''--port=8080''] = Inr st'
             \<and> eloArgParse st [prog, ''-p8080''] = Inr st'
             \<and> eloArgGet st' ''port'' = Some ''8080''
             \<and> eloArgHas st' ''port''
             \<and> eloArgCount st' ''port'' = count (heap st p) + 1"
proof -
  let ?st' = "setValue (markProvided st p) p ''8080''"
  have ht: "hashTable ?st' = hashTable st"
    by (simp add: setValue_def markProvided_def)
  have sep: "parseStep st ''--port'' (Some ''8080'') = Next ?st' True"
    using assms(1,3) longOptionStep_plain[of "''port''" st "Some ''8080''"]
    by (simp add: takesValue_def startsWithDash_def)
  have inl: "parseStep st ''--port=8080'' None = Next ?st' False"
    using assms(1,3) longOptionStep_inline[of "''port''" st "''8080''" None]
    by (simp add: takesValue_def)
  have att: "parseStep st ''-p8080'' None = Next ?st' False"
    using assms(2,3) shortOption_first[of "CHR ''p''" st "''8080''" None]
    by (simp add: takesValue_def)
  have "\<forall>(k, q) \<in> set (hashTable st). valueType (heap ?st' q) \<noteq> ARG_REQUIRED \<or> value' (heap ?st' q) \<noteq> None"
    using assms(4) by (auto simp: setValue_def markProvided_def)
  then have scan: "missingRequired (heap ?st') (hashTable ?st') = None"
    unfolding ht by (rule missingRequired_none)
  have ne: "htCount (hashTable st) \<noteq> 0" using assms(1) by (rule htGet_nonempty)
  have "eloArgParse st [prog, ''--port'', ''8080''] = Inr ?st'"
       "eloArgParse st [prog, ''--port=8080''] = Inr ?st'"
       "eloArgParse st [prog, ''-p8080''] = Inr ?st'"
    using sep inl att scan ne by (simp_all add: eloArgParse_def)
  moreover have "eloArgGet ?st' ''port'' = Some ''8080''" "eloArgHas ?st' ''port''"
      "eloArgCount ?st' ''port'' = count (heap st p) + 1"
    using assms(1) by (simp_all add: eloArgGet_def eloArgHas_def eloArgCount_def setValue_def markProvided_def)
  ultimately show ?thesis by blast
qed

theorem port_forms_agree_witness:
  "\<exists>st'. eloArgParse portRegistry [''prog'', ''--port'', ''8080''] = Inr st'
        \<and> eloArgParse portRegistry [''prog'', ''--port=8080''] = Inr st'
        \<and> eloArgParse portRegistry [''prog'', ''-p8080''] = Inr st'
        \<and> eloArgGet st' ''port'' = Some ''8080''
        \<and> eloArgHas st' ''port''
        \<and> eloArgCount st' ''port'' = 1"
  using port_forms_agree [of portRegistry 0 "''prog''"]
  by (simp add: portRegistry_port) (simp add: portRegistry_def)

section \<open>Registration\<close>

text \<open>
  C8. When the short key or the long key of a registration is already in the table,
  \<^verbatim>\<open>eloArgAdd\<close> ends with a configuration message and no new state, so nothing is stored
  under the key a second time. With a description given, the message is the one for the
  short key if that is taken, else the one for the long key.
\<close>

theorem duplicate_key_rejected:
  assumes "htHas (hashTable st) shortOpt \<or> htHas (hashTable st) longOpt"
  shows "(\<exists>c. eloArgAdd slotPos st shortOpt longOpt descr vt = Inl (ConfigurationError c))
       \<and> (shortOpt = Some s \<and> htHas (hashTable st) shortOpt \<and> descr = Some d \<longrightarrow>
            eloArgAdd slotPos st shortOpt longOpt descr vt = Inl (ConfigurationError (ShortAlreadySet s)))
       \<and> (longOpt = Some l \<and> \<not> htHas (hashTable st) shortOpt \<and> descr = Some d \<longrightarrow>
            eloArgAdd slotPos st shortOpt longOpt descr vt = Inl (ConfigurationError (LongAlreadySet l)))"
  using assms
  by (auto simp: eloArgAdd_def split: option.splits)

theorem duplicate_key_rejected_witness:
  "eloArgAdd endSlot portRegistry (Some ''p'') (Some ''proxy'') (Some ''Proxy'') ARG_OPTIONAL
     = Inl (ConfigurationError (ShortAlreadySet ''p''))
   \<and> eloArgAdd endSlot portRegistry None (Some ''port'') (Some ''Port again'') ARG_NONE
     = Inl (ConfigurationError (LongAlreadySet ''port''))"
  using duplicate_key_rejected [where st = portRegistry and shortOpt = "Some ''p''" and longOpt = "Some ''proxy''"
      and s = "''p''" and descr = "Some ''Proxy''" and d = "''Proxy''" and slotPos = endSlot and vt = ARG_OPTIONAL]
    duplicate_key_rejected [where st = portRegistry and shortOpt = None and longOpt = "Some ''port''"
      and l = "''port''" and descr = "Some ''Port again''" and d = "''Port again''" and slotPos = endSlot and vt = ARG_NONE]
  by (simp add: htHas_def portRegistry_port)

section \<open>Two keys, one record\<close>

lemma map_of_insert_at:
  "map_of ht k = None \<Longrightarrow>
     map_of (take n ht @ (k, p) # drop n ht) k' = (if k' = k then Some p else map_of ht k')"
  by (induction ht arbitrary: n) (auto simp: take_Cons drop_Cons split: nat.splits if_splits)

lemma map_of_overwrite:
  "map_of (map (\<lambda>(k, q). if k = key then (k, p) else (k, q)) ht) k'
     = (if k' = key then (case map_of ht key of None \<Rightarrow> None | Some _ \<Rightarrow> Some p) else map_of ht k')"
  by (induction ht) (auto split: option.splits)

lemma htGet_htSet:
  "htGet (htSet slotPos ht k p) k' = (if k' = k then Some p else htGet ht k')"
  by (simp add: htGet_def htSet_def map_of_insert_at map_of_overwrite del: map_of_append split: option.splits)

lemma htGet_insertKey:
  "htGet (insertKey slotPos key p ht) k' = (if key = Some k' then Some p else htGet ht k')"
  by (auto simp: insertKey_def htGet_htSet split: option.splits)

lemma eloArgAdd_htGet:
  "eloArgAdd slotPos st s l d vt = Inr st' \<Longrightarrow>
     htGet (hashTable st') k = (if l = Some k \<or> s = Some k then Some (nextPtr st) else htGet (hashTable st) k)"
  by (auto simp: eloArgAdd_def htGet_insertKey split: option.splits if_splits)

lemma eloArgAdd_fresh_keys:
  "eloArgAdd slotPos st s l d vt = Inr st' \<Longrightarrow> \<not> htHas (hashTable st) s \<and> \<not> htHas (hashTable st) l"
  by (auto simp: eloArgAdd_def split: option.splits if_splits)

lemma eloArgAdd_keeps:
  assumes "eloArgAdd slotPos st s l d vt = Inr st'" and "htGet (hashTable st) k = Some p"
  shows "htGet (hashTable st') k = Some p"
  using eloArgAdd_htGet[OF assms(1), of k] eloArgAdd_fresh_keys[OF assms(1)] assms(2)
  by (auto simp: htHas_def)

lemma hashTable_markProvided [simp]: "hashTable (markProvided st p) = hashTable st"
  by (simp add: markProvided_def)

lemma hashTable_setValue [simp]: "hashTable (setValue st p v) = hashTable st"
  by (simp add: setValue_def)

lemma shortOptionLoop_hashTable:
  "shortOptionLoop st key opt nx = Return st' \<or> shortOptionLoop st key opt nx = Next st' b
     \<Longrightarrow> hashTable st' = hashTable st"
  by (induction st key opt nx rule: shortOptionLoop.induct)
     (auto split: option.splits if_splits)

lemma parseStep_hashTable:
  "parseStep st a nx = Return st' \<or> parseStep st a nx = Next st' b \<Longrightarrow> hashTable st' = hashTable st"
  using shortOptionLoop_hashTable[of st "take 1 (tl a)" "tl a" nx st' b]
  by (auto simp: parseStep_def longOptionStep_def Let_def split: if_splits option.splits)

lemma parseArgs_hashTable:
  "parseArgs st args = Inr (Completed st') \<or> parseArgs st args = Inr (ReturnedEarly st')
     \<Longrightarrow> hashTable st' = hashTable st"
proof (induction st args rule: parseArgs.induct)
  case (1 st)
  then show ?case by simp
next
  case (2 st a rest)
  let ?nx = "case rest of [] \<Rightarrow> None | v # _ \<Rightarrow> Some v"
  show ?case
  proof (cases "parseStep st a ?nx")
    case (Fail e)
    with "2.prems" show ?thesis by simp
  next
    case (Return st1)
    with "2.prems" have "st' = st1" by simp
    with Return show ?thesis using parseStep_hashTable[of st a ?nx st'] by simp
  next
    case (Next st1 skip)
    with "2.prems" have "parseArgs st1 (drop (if skip then 1 else 0) rest) = Inr (Completed st')
        \<or> parseArgs st1 (drop (if skip then 1 else 0) rest) = Inr (ReturnedEarly st')"
      by simp
    then have "hashTable st' = hashTable st1" by (rule "2.IH"[OF Next])
    moreover have "hashTable st1 = hashTable st"
      using parseStep_hashTable[of st a ?nx st1 skip] Next by simp
    ultimately show ?thesis by simp
  qed
qed

lemma eloArgParse_hashTable:
  "eloArgParse st argv = Inr st' \<Longrightarrow> hashTable st' = hashTable st"
  using parseArgs_hashTable[of st "tl argv" st']
  by (auto simp: eloArgParse_def split: if_splits sum.splits outcome.splits option.splits)

lemma runCalls_keeps:
  "runCalls slotPos st calls = Inr st' \<Longrightarrow> htGet (hashTable st) k = Some p
     \<Longrightarrow> htGet (hashTable st') k = Some p"
proof (induction slotPos st calls rule: runCalls.induct)
  case (1 slotPos st)
  then show ?case by simp
next
  case (2 slotPos st s l d vt calls)
  then show ?case
    by (auto split: sum.splits dest: eloArgAdd_keeps)
next
  case (3 slotPos st argv calls)
  then show ?case
    by (auto split: sum.splits dest: eloArgParse_hashTable)
qed

text \<open>
  C6. After a registration with both a short and a long key, and after any further
  calls of \<^verbatim>\<open>add\<close> and \<^verbatim>\<open>parse\<close> that the process survives, both keys lead to the
  record allocated by that registration, and \<^verbatim>\<open>has\<close>, \<^verbatim>\<open>get\<close> and \<^verbatim>\<open>getCount\<close> give the
  same for the two keys.
\<close>

theorem aliases_share_record:
  assumes "eloArgAdd slotPos st (Some s) (Some l) descr vt = Inr st1"
    and "runCalls slotPos st1 calls = Inr st2"
  shows "htGet (hashTable st2) s = Some (nextPtr st)
       \<and> htGet (hashTable st2) l = Some (nextPtr st)
       \<and> eloArgHas st2 s = eloArgHas st2 l
       \<and> eloArgGet st2 s = eloArgGet st2 l
       \<and> eloArgCount st2 s = eloArgCount st2 l"
proof -
  have "htGet (hashTable st1) s = Some (nextPtr st)" "htGet (hashTable st1) l = Some (nextPtr st)"
    using eloArgAdd_htGet[OF assms(1)] by simp_all
  then have "htGet (hashTable st2) s = Some (nextPtr st)" "htGet (hashTable st2) l = Some (nextPtr st)"
    using runCalls_keeps[OF assms(2)] by simp_all
  then show ?thesis
    by (simp add: eloArgHas_def eloArgGet_def eloArgCount_def)
qed

theorem aliases_share_record_witness:
  "\<exists>st2. runCalls endSlot portRegistry
            [Add (Some ''v'') (Some ''verbose'') (Some ''Verbosity'') ARG_NONE,
             Parse [''prog'', ''--port'', ''80'', ''-v''],
             Parse [''prog'', ''-p'', ''81'']] = Inr st2
         \<and> eloArgGet st2 ''p'' = Some ''81'' \<and> eloArgGet st2 ''port'' = Some ''81''
         \<and> eloArgHas st2 ''p'' \<and> eloArgHas st2 ''port''
         \<and> eloArgCount st2 ''p'' = 2 \<and> eloArgCount st2 ''port'' = 2"
proof -
  let ?calls = "[Add (Some ''v'') (Some ''verbose'') (Some ''Verbosity'') ARG_NONE,
             Parse [''prog'', ''--port'', ''80'', ''-v''],
             Parse [''prog'', ''-p'', ''81'']]"
  have "\<exists>st2. runCalls endSlot portRegistry ?calls = Inr st2
          \<and> eloArgGet st2 ''p'' = Some ''81'' \<and> eloArgHas st2 ''p'' \<and> eloArgCount st2 ''p'' = 2"
    by (simp add: add_defs parse_defs portRegistry_def)
  then obtain st2 where r: "runCalls endSlot portRegistry ?calls = Inr st2"
    and q: "eloArgGet st2 ''p'' = Some ''81''" "eloArgHas st2 ''p''" "eloArgCount st2 ''p'' = 2"
    by (elim exE conjE)
  from aliases_share_record [OF portRegistry_built r] q
  have "eloArgGet st2 ''port'' = Some ''81''" "eloArgHas st2 ''port''" "eloArgCount st2 ''port'' = 2"
    by simp_all
  with r q show ?thesis by (intro exI[of _ st2] conjI)
qed

section \<open>Repeated options\<close>

lemma occurrence_step:
  assumes "takesValue (valueType (heap st p))" and "refersTo (hashTable st) p occ"
  shows "parseArgs st (tokens occ @ rest) = parseArgs (setValue (markProvided st p) p (occValue occ)) rest"
proof (cases occ)
  case (LongSpace name v)
  then show ?thesis
    using assms longOptionStep_plain[of name st "Some v"]
    by (auto simp: takesValue_def)
next
  case (LongEquals name v)
  then show ?thesis
    using assms longOptionStep_inline[of name st v "case rest of [] \<Rightarrow> None | v # _ \<Rightarrow> Some v"]
    by (auto simp: takesValue_def)
next
  case (ShortAttached c v)
  then show ?thesis
    using assms shortOption_first[of c st v "case rest of [] \<Rightarrow> None | v # _ \<Rightarrow> Some v"]
    by (auto simp: takesValue_def)
next
  case (ShortDetached c v)
  then show ?thesis
    using assms shortOption_first[of c st "[]" "Some v"]
    by (auto simp: takesValue_def)
qed

lemma occurrences_run:
  assumes "takesValue (valueType (heap st p))"
    and "occs \<noteq> []"
    and "\<forall>occ \<in> set occs. refersTo (hashTable st) p occ"
  shows "parseArgs st (concat (map tokens occs) @ rest) = parseArgs (afterOccurrences st p occs) rest"
  using assms
proof (induction occs arbitrary: st)
  case Nil
  then show ?case by simp
next
  case (Cons occ occs)
  let ?st1 = "setValue (markProvided st p) p (occValue occ)"
  have step: "parseArgs st (tokens occ @ concat (map tokens occs) @ rest)
                = parseArgs ?st1 (concat (map tokens occs) @ rest)"
    using Cons.prems occurrence_step[of st p occ] by simp
  show ?case
  proof (cases occs)
    case Nil
    then show ?thesis
      using step by (simp add: afterOccurrences_def setValue_def markProvided_def)
  next
    case (Cons occ' occs')
    have "parseArgs ?st1 (concat (map tokens occs) @ rest) = parseArgs (afterOccurrences ?st1 p occs) rest"
      using Cons.IH[of ?st1] Cons.prems Cons
      by (simp add: setValue_def markProvided_def)
    moreover have "afterOccurrences ?st1 p occs = afterOccurrences st p (occ # occs)"
      using Cons by (simp add: afterOccurrences_def setValue_def markProvided_def)
    ultimately show ?thesis using step by simp
  qed
qed

text \<open>
  C9. For a record of kind OPTIONAL or REQUIRED and a sequence of occurrences of it that
  is not empty, in any mix of \<^verbatim>\<open>--name value\<close>, \<^verbatim>\<open>--name=value\<close>, \<^verbatim>\<open>-cvalue\<close> and
  \<^verbatim>\<open>-c value\<close>: the loop works through their elements and goes on with the rest in the
  state where the record is provided, its count is raised by the number of occurrences,
  and its value is that of the last one. The whole parse of these occurrences ends with
  that state, or with the message of the scan for required options on it. Through any
  key of the record, \<^verbatim>\<open>has\<close> is true, \<^verbatim>\<open>getCount\<close> is the raised count and \<^verbatim>\<open>get\<close> the
  last value.
\<close>

theorem repeated_occurrences:
  assumes "valueType (heap st p) = ARG_OPTIONAL \<or> valueType (heap st p) = ARG_REQUIRED"
    and "occs \<noteq> []"
    and "\<forall>occ \<in> set occs. refersTo (hashTable st) p occ"
    and "htGet (hashTable st) key = Some p"
  shows "parseArgs st (concat (map tokens occs) @ rest) = parseArgs (afterOccurrences st p occs) rest
       \<and> eloArgParse st (prog # concat (map tokens occs))
           = (case missingRequired (heap (afterOccurrences st p occs)) (hashTable st) of
                Some e \<Rightarrow> Inl e
              | None \<Rightarrow> Inr (afterOccurrences st p occs))
       \<and> eloArgHas (afterOccurrences st p occs) key
       \<and> eloArgCount (afterOccurrences st p occs) key = count (heap st p) + length occs
       \<and> eloArgGet (afterOccurrences st p occs) key = Some (occValue (last occs))"
proof -
  have tv: "takesValue (valueType (heap st p))" using assms(1) by (simp add: takesValue_def)
  have run: "parseArgs st (concat (map tokens occs) @ rest) = parseArgs (afterOccurrences st p occs) rest" for rest
    using occurrences_run[OF tv assms(2,3)] .
  have ht: "hashTable (afterOccurrences st p occs) = hashTable st"
    by (simp add: afterOccurrences_def)
  have top: "eloArgParse st (prog # concat (map tokens occs))
           = (case missingRequired (heap (afterOccurrences st p occs)) (hashTable st) of
                Some e \<Rightarrow> Inl e
              | None \<Rightarrow> Inr (afterOccurrences st p occs))"
    using run[of "[]"] htGet_nonempty[OF assms(4)] ht by (simp add: eloArgParse_def)
  have q: "eloArgHas (afterOccurrences st p occs) key"
      "eloArgCount (afterOccurrences st p occs) key = count (heap st p) + length occs"
      "eloArgGet (afterOccurrences st p occs) key = Some (occValue (last occs))"
    using assms(4) by (simp_all add: eloArgHas_def eloArgCount_def eloArgGet_def afterOccurrences_def)
  from run top q show ?thesis by simp
qed

theorem repeated_occurrences_witness:
  "eloArgParse portRegistry
     [''prog'', ''--port'', ''1'', ''-p2'', ''--port=3'', ''-p'', ''4'']
     = Inr (afterOccurrences portRegistry 0
         [LongSpace ''port'' ''1'', ShortAttached CHR ''p'' ''2'', LongEquals ''port'' ''3'', ShortDetached CHR ''p'' ''4''])
   \<and> eloArgCount (afterOccurrences portRegistry 0
         [LongSpace ''port'' ''1'', ShortAttached CHR ''p'' ''2'', LongEquals ''port'' ''3'', ShortDetached CHR ''p'' ''4'']) ''port'' = 4
   \<and> eloArgGet (afterOccurrences portRegistry 0
         [LongSpace ''port'' ''1'', ShortAttached CHR ''p'' ''2'', LongEquals ''port'' ''3'', ShortDetached CHR ''p'' ''4'']) ''port'' = Some ''4''"
  using repeated_occurrences [where st = portRegistry and p = 0 and key = "''port''" and prog = "''prog''"
      and occs = "[LongSpace ''port'' ''1'', ShortAttached CHR ''p'' ''2'', LongEquals ''port'' ''3'', ShortDetached CHR ''p'' ''4'']"]
  by (simp add: portRegistry_port startsWithDash_def)
     (simp add: portRegistry_def afterOccurrences_def newOption_def)

end
